theory Spec2Isabelle
  imports Main
begin

section \<open>The Turing machine simulator of \<^verbatim>\<open>src/main.py\<close>\<close>

subsection \<open>Types and constants\<close>

text \<open>
  The module declares \<^verbatim>\<open>Symbol = str\<close>, \<^verbatim>\<open>State = str\<close>, \<^verbatim>\<open>Direction = bool\<close>,
  \<^verbatim>\<open>Result = bool\<close> and the transition function as a dictionary of dictionaries
  \<^verbatim>\<open>dict[State, dict[Symbol, tuple[Symbol, State, Direction]]]\<close>.
\<close>

type_synonym Symbol = string
type_synonym State = string
type_synonym Direction = bool
type_synonym Result = bool
type_synonym TransitionFunction = "State \<rightharpoonup> (Symbol \<rightharpoonup> (Symbol \<times> State \<times> Direction))"

definition RIGHT :: Direction where
  "RIGHT = False"

definition LEFT :: Direction where
  "LEFT = True"

definition BLANK :: Symbol where
  "BLANK = []"

definition ACCEPT :: Result where
  "ACCEPT = True"

definition REJECT :: Result where
  "REJECT = False"

text \<open>
  The exceptions the class can raise. The two \<^verbatim>\<open>ValueError\<close>s of the constructor carry
  what their message prints: the initial state, and the set of invalid accepting
  states. \<^verbatim>\<open>AttributeError\<close> is the access to \<^verbatim>\<open>_tape\<close>, \<^verbatim>\<open>_tape_length\<close> or \<^verbatim>\<open>_index\<close>
  before \<^verbatim>\<open>input_tape\<close> has set it; \<^verbatim>\<open>IndexError\<close> is a list subscript out of range.
\<close>

datatype error =
    ValueError_initial_state State
  | ValueError_accepting_states "State set"
  | AttributeError
  | IndexError

subsection \<open>The object\<close>

text \<open>
  The fields of \<^verbatim>\<open>TuringMachine\<close>, without their leading underscore. The constructor
  sets \<^verbatim>\<open>_states\<close>, \<^verbatim>\<open>_current_state\<close>, \<^verbatim>\<open>_delta\<close> and \<^verbatim>\<open>_accepting\<close> only; the three tape
  attributes exist once \<^verbatim>\<open>input_tape\<close> has run, so they are optional here and \<open>None\<close>
  is the attribute that is not there yet.
\<close>

record TuringMachine =
  tape :: "Symbol list option"
  tape_length :: "int option"
  states :: "State set"
  accepting :: "State set"
  current_state :: State
  index :: "int option"
  delta :: TransitionFunction

text \<open>Python's list subscript: a negative index counts from the end, and an index
  outside the list raises \<^verbatim>\<open>IndexError\<close>.\<close>

definition py_index :: "'a list \<Rightarrow> int \<Rightarrow> error + nat" where
  "py_index xs i =
     (if i < 0 then
        (if 0 \<le> i + int (length xs) then Inr (nat (i + int (length xs))) else Inl IndexError)
      else
        (if i < int (length xs) then Inr (nat i) else Inl IndexError))"

definition py_getitem :: "'a list \<Rightarrow> int \<Rightarrow> error + 'a" where
  "py_getitem xs i = (case py_index xs i of Inl e \<Rightarrow> Inl e | Inr j \<Rightarrow> Inr (xs ! j))"

definition py_setitem :: "'a list \<Rightarrow> int \<Rightarrow> 'a \<Rightarrow> error + 'a list" where
  "py_setitem xs i v = (case py_index xs i of Inl e \<Rightarrow> Inl e | Inr j \<Rightarrow> Inr (xs[j := v]))"

subsection \<open>Construction\<close>

text \<open>\<^verbatim>\<open>__init__\<close>: the initial state is checked first, then the accepting states.\<close>

definition init :: "State set \<Rightarrow> State \<Rightarrow> TransitionFunction \<Rightarrow> State set \<Rightarrow> error + TuringMachine" where
  "init sts initial_state dl accepting_states =
     (if initial_state \<notin> sts then Inl (ValueError_initial_state initial_state)
      else if \<not> accepting_states \<subseteq> sts then
        Inl (ValueError_accepting_states (accepting_states - sts))
      else Inr \<lparr> tape = None, tape_length = None, states = sts,
                 accepting = accepting_states, current_state = initial_state,
                 index = None, delta = dl \<rparr>)"

subsection \<open>The tape\<close>

text \<open>The argument of \<^verbatim>\<open>input_tape\<close> is \<^verbatim>\<open>list[Symbol] | str\<close>. Of a string, \<^verbatim>\<open>list\<close>
  makes the list of its one-character strings and \<^verbatim>\<open>len\<close> counts its characters.\<close>

datatype tape_input = TapeList "Symbol list" | TapeStr string

fun truthy :: "tape_input \<Rightarrow> bool" where
  "truthy (TapeList xs) = (xs \<noteq> [])"
| "truthy (TapeStr s) = (s \<noteq> [])"

fun py_list :: "tape_input \<Rightarrow> Symbol list" where
  "py_list (TapeList xs) = xs"
| "py_list (TapeStr s) = map (\<lambda>c. [c]) s"

fun py_len :: "tape_input \<Rightarrow> int" where
  "py_len (TapeList xs) = int (length xs)"
| "py_len (TapeStr s) = int (length s)"

definition input_tape :: "tape_input \<Rightarrow> TuringMachine \<Rightarrow> TuringMachine" where
  "input_tape inp m =
     (let tp = (if truthy inp then inp else TapeList [BLANK])
      in m\<lparr> tape := Some (py_list tp), tape_length := Some (py_len tp), index := Some 0 \<rparr>)"

definition go_right :: "TuringMachine \<Rightarrow> error + TuringMachine" where
  "go_right m =
     (case index m of None \<Rightarrow> Inl AttributeError | Some i \<Rightarrow>
       (case tape_length m of None \<Rightarrow> Inl AttributeError | Some n \<Rightarrow>
          if i = n - 1 then
            (case tape m of None \<Rightarrow> Inl AttributeError | Some t \<Rightarrow>
               Inr (m\<lparr> tape := Some (t @ [BLANK]), tape_length := Some (n + 1),
                       index := Some (i + 1) \<rparr>))
          else Inr (m\<lparr> index := Some (i + 1) \<rparr>)))"

definition go_left :: "TuringMachine \<Rightarrow> error + TuringMachine" where
  "go_left m =
     (case index m of None \<Rightarrow> Inl AttributeError | Some i \<Rightarrow>
        if i = 0 then
          (case tape m of None \<Rightarrow> Inl AttributeError | Some t \<Rightarrow>
            (case tape_length m of None \<Rightarrow> Inl AttributeError | Some n \<Rightarrow>
               Inr (m\<lparr> tape := Some ([BLANK] @ t), tape_length := Some (n + 1) \<rparr>)))
        else Inr (m\<lparr> index := Some (i - 1) \<rparr>))"

definition read :: "TuringMachine \<Rightarrow> error + Symbol" where
  "read m =
     (case tape m of None \<Rightarrow> Inl AttributeError | Some t \<Rightarrow>
       (case index m of None \<Rightarrow> Inl AttributeError | Some i \<Rightarrow> py_getitem t i))"

definition write_tm :: "Symbol \<Rightarrow> TuringMachine \<Rightarrow> error + TuringMachine" where
  "write_tm symbol m =
     (case tape m of None \<Rightarrow> Inl AttributeError | Some t \<Rightarrow>
       (case index m of None \<Rightarrow> Inl AttributeError | Some i \<Rightarrow>
         (case py_setitem t i symbol of Inl e \<Rightarrow> Inl e
          | Inr t' \<Rightarrow> Inr (m\<lparr> tape := Some t' \<rparr>))))"

subsection \<open>One step\<close>

text \<open>
  \<^verbatim>\<open>next\<close> returns \<^verbatim>\<open>Result | None\<close>: \<open>Some ACCEPT\<close>, \<open>Some REJECT\<close>, or \<open>None\<close> when the
  computation goes on (the outcome the specification calls Continue). The methods
  \<^verbatim>\<open>write\<close> and \<^verbatim>\<open>next\<close> are \<open>write_tm\<close> and \<open>next_tm\<close> here. \<open>next_tm\<close> returns the
  outcome together with the object as the call leaves it.
\<close>

definition next_tm :: "TuringMachine \<Rightarrow> error + (Result option \<times> TuringMachine)" where
  "next_tm m =
     (case read m of Inl e \<Rightarrow> Inl e | Inr symbol \<Rightarrow>
       (case delta m (current_state m) of None \<Rightarrow> Inr (Some REJECT, m) | Some row \<Rightarrow>
         (case row symbol of None \<Rightarrow> Inr (Some REJECT, m)
          | Some (new_symbol, new_state, direction) \<Rightarrow>
             (case write_tm new_symbol m of Inl e \<Rightarrow> Inl e | Inr m1 \<Rightarrow>
               (case (if direction = RIGHT then go_right (m1\<lparr> current_state := new_state \<rparr>)
                      else go_left (m1\<lparr> current_state := new_state \<rparr>)) of
                  Inl e \<Rightarrow> Inl e
                | Inr m2 \<Rightarrow> Inr (if new_state \<in> accepting m2 then Some ACCEPT else None, m2))))))"

subsection \<open>Invariants of the tape attributes\<close>

text \<open>\<open>length_ok\<close>: the counter \<^verbatim>\<open>_tape_length\<close> is the number of cells of \<^verbatim>\<open>_tape\<close>.
  \<open>head_ok\<close>: the head is on a cell, \<open>0 \<le> _index < _tape_length\<close>.\<close>

definition length_ok :: "TuringMachine \<Rightarrow> bool" where
  "length_ok m =
     (case tape m of None \<Rightarrow> False | Some t \<Rightarrow> tape_length m = Some (int (length t)))"

definition head_ok :: "TuringMachine \<Rightarrow> bool" where
  "head_ok m =
     (case index m of None \<Rightarrow> False | Some i \<Rightarrow>
       (case tape_length m of None \<Rightarrow> False | Some n \<Rightarrow> 0 \<le> i \<and> i < n))"

definition tape_ok :: "TuringMachine \<Rightarrow> bool" where
  "tape_ok m = (length_ok m \<and> head_ok m)"

text \<open>\<open>returned_ok\<close>: a call returned, and left both invariants.\<close>

definition returned_ok :: "error + TuringMachine \<Rightarrow> bool" where
  "returned_ok r = (case r of Inl e \<Rightarrow> False | Inr m \<Rightarrow> tape_ok m)"

subsection \<open>Sequences of calls\<close>

text \<open>A caller's sequence of \<^verbatim>\<open>go_left\<close> and \<^verbatim>\<open>go_right\<close> calls; \<open>move_states\<close> lists what
  each call returns, and stops at a call that raises.\<close>

datatype move = MoveLeft | MoveRight

fun apply_move :: "move \<Rightarrow> TuringMachine \<Rightarrow> error + TuringMachine" where
  "apply_move MoveLeft m = go_left m"
| "apply_move MoveRight m = go_right m"

fun move_states :: "move list \<Rightarrow> TuringMachine \<Rightarrow> (error + TuringMachine) list" where
  "move_states [] m = []"
| "move_states (mv # mvs) m =
     (case apply_move mv m of Inl e \<Rightarrow> [Inl e] | Inr m' \<Rightarrow> Inr m' # move_states mvs m')"

text \<open>A caller that calls \<^verbatim>\<open>next\<close> \<open>n\<close> times whatever it returns: \<open>run_next\<close> lists the
  outcome of each call with the object it leaves, \<open>after_next\<close> is the object after the
  last call.\<close>

fun run_next :: "nat \<Rightarrow> TuringMachine \<Rightarrow> (error + (Result option \<times> TuringMachine)) list" where
  "run_next 0 m = []"
| "run_next (Suc n) m =
     (case next_tm m of Inl e \<Rightarrow> [Inl e] | Inr (r, m') \<Rightarrow> Inr (r, m') # run_next n m')"

fun after_next :: "nat \<Rightarrow> TuringMachine \<Rightarrow> error + TuringMachine" where
  "after_next 0 m = Inr m"
| "after_next (Suc n) m =
     (case next_tm m of Inl e \<Rightarrow> Inl e | Inr (r, m') \<Rightarrow> after_next n m')"

text \<open>The objects a caller can hold after \<^verbatim>\<open>input_tape\<close>: whatever the tape operations
  and \<^verbatim>\<open>next\<close> make of an initialised object.\<close>

inductive reachable :: "TuringMachine \<Rightarrow> bool" where
  r_input: "reachable (input_tape inp m)"
| r_right: "reachable m \<Longrightarrow> go_right m = Inr m' \<Longrightarrow> reachable m'"
| r_left: "reachable m \<Longrightarrow> go_left m = Inr m' \<Longrightarrow> reachable m'"
| r_write: "reachable m \<Longrightarrow> write_tm s m = Inr m' \<Longrightarrow> reachable m'"
| r_next: "reachable m \<Longrightarrow> next_tm m = Inr (r, m') \<Longrightarrow> reachable m'"

subsection \<open>The machines of the scenarios\<close>

text \<open>Scenario A: one state \<open>q0\<close>, accepting, and no transition.\<close>

definition scenario_A :: TuringMachine where
  "scenario_A = \<lparr> tape = None, tape_length = None, states = {''q0''},
     accepting = {''q0''}, current_state = ''q0'', index = None, delta = Map.empty \<rparr>"

text \<open>Scenario B: \<open>q0\<close> reads \<open>1\<close>, writes \<open>1\<close>, goes to the accepting \<open>q1\<close> and moves right.\<close>

definition delta_B :: TransitionFunction where
  "delta_B = [''q0'' \<mapsto> [''1'' \<mapsto> (''1'', ''q1'', RIGHT)]]"

definition scenario_B :: TuringMachine where
  "scenario_B = \<lparr> tape = None, tape_length = None, states = {''q0'', ''q1''},
     accepting = {''q1''}, current_state = ''q0'', index = None, delta = delta_B \<rparr>"

text \<open>A machine that has a transition out of its accepting state: \<open>q0\<close> on \<open>1\<close> goes to the
  accepting \<open>q1\<close>, and \<open>q1\<close> on a blank writes \<open>x\<close> and goes back to \<open>q0\<close>.\<close>

definition delta_C :: TransitionFunction where
  "delta_C = [''q0'' \<mapsto> [''1'' \<mapsto> (''1'', ''q1'', RIGHT)],
              ''q1'' \<mapsto> [BLANK \<mapsto> (''x'', ''q0'', RIGHT)]]"

definition scenario_C :: TuringMachine where
  "scenario_C = \<lparr> tape = None, tape_length = None, states = {''q0'', ''q1''},
     accepting = {''q1''}, current_state = ''q0'', index = None, delta = delta_C \<rparr>"

section \<open>Properties\<close>

subsection \<open>Initialising the tape\<close>

text \<open>
  Claim C8. For the empty input (an empty list or an empty string) \<^verbatim>\<open>input_tape\<close> leaves
  a tape of exactly one cell, which holds \<open>BLANK\<close>, with the counter at 1 and the head at
  0. For a non-empty list the tape is that list, for a non-empty string it is the list
  of its characters, and the head is at 0. \<^verbatim>\<open>input_tape\<close> has no failing branch: it is
  a total function to objects, on any object, also one whose tape was set before.
\<close>

theorem input_tape_initialises:
  "input_tape (TapeList []) m = m\<lparr> tape := Some [BLANK], tape_length := Some 1, index := Some 0 \<rparr> \<and>
   input_tape (TapeStr []) m = m\<lparr> tape := Some [BLANK], tape_length := Some 1, index := Some 0 \<rparr> \<and>
   input_tape (TapeList (x # xs)) m =
     m\<lparr> tape := Some (x # xs), tape_length := Some (int (length (x # xs))), index := Some 0 \<rparr> \<and>
   input_tape (TapeStr (c # cs)) m =
     m\<lparr> tape := Some (map (\<lambda>c. [c]) (c # cs)), tape_length := Some (int (length (c # cs))),
        index := Some 0 \<rparr>"
  by (simp add: input_tape_def Let_def)

subsection \<open>Construction\<close>

text \<open>
  Claim C7. \<^verbatim>\<open>__init__\<close> returns an object exactly when the initial state is one of the
  states and every accepting state is one of the states. When the initial state is not
  among the states it raises the error that names that state; otherwise, when some
  accepting state is not among the states, it raises the error that names the set of
  those accepting states. In both cases there is no object, so nothing to call
  \<^verbatim>\<open>next\<close> on. When it succeeds the object holds the arguments, the initial state as
  current state, and no tape yet.
\<close>

theorem init_validates:
  "((\<exists>m. init sts q dl acc = Inr m) \<longleftrightarrow> (q \<in> sts \<and> acc \<subseteq> sts)) \<and>
   (q \<notin> sts \<longrightarrow> init sts q dl acc = Inl (ValueError_initial_state q)) \<and>
   (q \<in> sts \<and> \<not> acc \<subseteq> sts \<longrightarrow>
      init sts q dl acc = Inl (ValueError_accepting_states (acc - sts)) \<and> acc - sts \<noteq> {}) \<and>
   (q \<in> sts \<and> acc \<subseteq> sts \<longrightarrow>
      init sts q dl acc = Inr \<lparr> tape = None, tape_length = None, states = sts, accepting = acc,
        current_state = q, index = None, delta = dl \<rparr>)"
  by (auto simp add: init_def)

theorem init_validates_witness:
  "init {''q0''} ''q9'' Map.empty {''q0''} = Inl (ValueError_initial_state ''q9'') \<and>
   init {''q0''} ''q0'' Map.empty {''q0'', ''q7''} = Inl (ValueError_accepting_states {''q7''}) \<and>
   init {''q0'', ''q1''} ''q0'' delta_B {''q1''} = Inr scenario_B"
proof -
  have a: "init {''q0''} ''q9'' Map.empty {''q0''} = Inl (ValueError_initial_state ''q9'')"
    using init_validates [of "{''q0''}" "''q9''" Map.empty "{''q0''}"] by simp
  have b: "init {''q0''} ''q0'' Map.empty {''q0'', ''q7''} =
      Inl (ValueError_accepting_states ({''q0'', ''q7''} - {''q0''}))"
    using init_validates [of "{''q0''}" "''q0''" Map.empty "{''q0'', ''q7''}"] by simp
  have b': "{''q0'', ''q7''} - {''q0''} = {''q7''}"
    by auto
  have c: "init {''q0'', ''q1''} ''q0'' delta_B {''q1''} = Inr scenario_B"
    using init_validates [of "{''q0'', ''q1''}" "''q0''" delta_B "{''q1''}"]
    by (simp add: scenario_B_def)
  from a b b' c show ?thesis by simp
qed

subsection \<open>A step without a transition\<close>

text \<open>
  Claim C2. When the head reads a symbol (the read does not raise) and the transition
  table has no entry for the current state and that symbol, either because the state has
  no row or because its row has no entry for the symbol, \<^verbatim>\<open>next\<close> returns \<open>REJECT\<close> and the
  object is the one it was called on: tape, counter, head and current state are as
  before.
\<close>

theorem next_rejects_unchanged:
  assumes "read m = Inr symbol"
    and "delta m (current_state m) = None \<or>
         (\<exists>row. delta m (current_state m) = Some row \<and> row symbol = None)"
  shows "next_tm m = Inr (Some REJECT, m)"
  using assms by (auto simp add: next_tm_def)

theorem next_rejects_unchanged_witness:
  "next_tm (input_tape (TapeStr ''0'') scenario_B) =
     Inr (Some REJECT, input_tape (TapeStr ''0'') scenario_B) \<and>
   next_tm ((input_tape (TapeStr ''1'') scenario_B)\<lparr> current_state := ''q1'' \<rparr>) =
     Inr (Some REJECT, (input_tape (TapeStr ''1'') scenario_B)\<lparr> current_state := ''q1'' \<rparr>)"
proof -
  have r0: "read (input_tape (TapeStr ''0'') scenario_B) = Inr ''0''"
    by (simp add: read_def input_tape_def py_getitem_def py_index_def)
  have d0: "\<exists>row. delta (input_tape (TapeStr ''0'') scenario_B)
        (current_state (input_tape (TapeStr ''0'') scenario_B)) = Some row \<and> row ''0'' = None"
    by (simp add: input_tape_def scenario_B_def delta_B_def)
  have r1: "read ((input_tape (TapeStr ''1'') scenario_B)\<lparr> current_state := ''q1'' \<rparr>) = Inr ''1''"
    by (simp add: read_def input_tape_def py_getitem_def py_index_def)
  have d1: "delta ((input_tape (TapeStr ''1'') scenario_B)\<lparr> current_state := ''q1'' \<rparr>)
        (current_state ((input_tape (TapeStr ''1'') scenario_B)\<lparr> current_state := ''q1'' \<rparr>)) = None"
    by (simp add: input_tape_def scenario_B_def delta_B_def)
  show ?thesis
    using next_rejects_unchanged [OF r0] next_rejects_unchanged [OF r1] d0 d1 by blast
qed

subsection \<open>A step with a transition\<close>

lemma read_input_str1:
  "read (input_tape (TapeStr [c]) m) = Inr [c]"
  by (simp add: read_def input_tape_def py_getitem_def py_index_def)

lemma next_scenario_B:
  "next_tm (input_tape (TapeStr ''1'') scenario_B) =
     Inr (Some ACCEPT, scenario_B\<lparr> tape := Some [''1'', BLANK], tape_length := Some 2,
            current_state := ''q1'', index := Some 1 \<rparr>)"
  by (simp add: next_tm_def read_def write_tm_def go_right_def input_tape_def
      py_getitem_def py_setitem_def py_index_def scenario_B_def delta_B_def RIGHT_def)

text \<open>
  Claim C1. Let the tape attributes be set, let the head index \<open>i\<close> be on a cell of the
  tape \<open>t\<close> (\<open>0 \<le> i < len t\<close>), and let the transition table give
  \<open>(new_symbol, new_state, direction)\<close> for the current state and the symbol \<open>t ! i\<close> under
  the head. Then \<^verbatim>\<open>next\<close> reads cell \<open>i\<close>, its \<^verbatim>\<open>write\<close> puts \<open>new_symbol\<close> into cell \<open>i\<close> and
  into no other cell, the current state becomes \<open>new_state\<close>, then \<^verbatim>\<open>go_right\<close> is called
  when the direction is \<open>RIGHT\<close> and \<^verbatim>\<open>go_left\<close> otherwise; that call returns, and \<^verbatim>\<open>next\<close>
  returns \<open>ACCEPT\<close> when \<open>new_state\<close> is accepting and \<open>None\<close> (Continue) otherwise, leaving
  the object the move produced: the head at \<open>i + 1\<close> after a move right (with a blank
  appended when \<open>i\<close> was the counter minus one), at \<open>i - 1\<close> after a move left from
  \<open>i > 0\<close>, and at 0 with a blank put in front after a move left from 0. In Scenario B
  (states \<open>q0\<close>, \<open>q1\<close>, initial \<open>q0\<close>, accepting \<open>q1\<close>, the single transition
  \<open>q0, 1 \<mapsto> (1, q1, RIGHT)\<close>, input \<open>1\<close>), the constructor succeeds and the first \<^verbatim>\<open>next\<close>
  returns \<open>ACCEPT\<close> with current state \<open>q1\<close>, a tape of two cells and the head at index 1.
\<close>

theorem next_applies_transition:
  "(tape m = Some t \<and> index m = Some i \<and> tape_length m = Some n \<and>
    0 \<le> i \<and> i < int (length t) \<and>
    delta m (current_state m) = Some row \<and>
    row (t ! nat i) = Some (new_symbol, new_state, direction) \<longrightarrow>
      read m = Inr (t ! nat i) \<and>
      write_tm new_symbol m = Inr (m\<lparr> tape := Some (t[nat i := new_symbol]) \<rparr>) \<and>
      (t[nat i := new_symbol]) ! nat i = new_symbol \<and>
      (\<forall>k. k \<noteq> nat i \<longrightarrow> (t[nat i := new_symbol]) ! k = t ! k) \<and>
      (\<exists>m2. (if direction = RIGHT
              then go_right (m\<lparr> tape := Some (t[nat i := new_symbol]),
                               current_state := new_state \<rparr>)
              else go_left (m\<lparr> tape := Some (t[nat i := new_symbol]),
                              current_state := new_state \<rparr>))
               = Inr m2 \<and>
            current_state m2 = new_state \<and>
            index m2 = Some (if direction = RIGHT then i + 1 else if i = 0 then 0 else i - 1) \<and>
            tape m2 = Some (if direction = RIGHT
                            then (if i = n - 1 then t[nat i := new_symbol] @ [BLANK]
                                  else t[nat i := new_symbol])
                            else (if i = 0 then BLANK # t[nat i := new_symbol]
                                  else t[nat i := new_symbol])) \<and>
            next_tm m = Inr (if new_state \<in> accepting m then Some ACCEPT else None, m2))) \<and>
   init {''q0'', ''q1''} ''q0'' delta_B {''q1''} = Inr scenario_B \<and>
   next_tm (input_tape (TapeStr ''1'') scenario_B) =
     Inr (Some ACCEPT, scenario_B\<lparr> tape := Some [''1'', BLANK], tape_length := Some 2,
            current_state := ''q1'', index := Some 1 \<rparr>)"
proof (intro conjI impI allI)
  assume a: "tape m = Some t \<and> index m = Some i \<and> tape_length m = Some n \<and>
    0 \<le> i \<and> i < int (length t) \<and>
    delta m (current_state m) = Some row \<and>
    row (t ! nat i) = Some (new_symbol, new_state, direction)"
  then have px: "py_index t i = Inr (nat i)"
    by (simp add: py_index_def)
  show rd: "read m = Inr (t ! nat i)"
    using a px by (simp add: read_def py_getitem_def)
  show wr: "write_tm new_symbol m = Inr (m\<lparr> tape := Some (t[nat i := new_symbol]) \<rparr>)"
    using a px by (simp add: write_tm_def py_setitem_def)
  from a have "nat i < length t"
    by linarith
  then show "(t[nat i := new_symbol]) ! nat i = new_symbol"
    by simp
  show "\<exists>m2. (if direction = RIGHT
              then go_right (m\<lparr> tape := Some (t[nat i := new_symbol]),
                               current_state := new_state \<rparr>)
              else go_left (m\<lparr> tape := Some (t[nat i := new_symbol]),
                              current_state := new_state \<rparr>))
               = Inr m2 \<and>
            current_state m2 = new_state \<and>
            index m2 = Some (if direction = RIGHT then i + 1 else if i = 0 then 0 else i - 1) \<and>
            tape m2 = Some (if direction = RIGHT
                            then (if i = n - 1 then t[nat i := new_symbol] @ [BLANK]
                                  else t[nat i := new_symbol])
                            else (if i = 0 then BLANK # t[nat i := new_symbol]
                                  else t[nat i := new_symbol])) \<and>
            next_tm m = Inr (if new_state \<in> accepting m then Some ACCEPT else None, m2)"
    using a rd wr by (simp add: next_tm_def go_right_def go_left_def)
next
  fix k
  assume "k \<noteq> nat i"
  then show "(t[nat i := new_symbol]) ! k = t ! k"
    by simp
next
  show "init {''q0'', ''q1''} ''q0'' delta_B {''q1''} = Inr scenario_B"
    by (simp add: init_def scenario_B_def)
next
  show "next_tm (input_tape (TapeStr ''1'') scenario_B) =
     Inr (Some ACCEPT, scenario_B\<lparr> tape := Some [''1'', BLANK], tape_length := Some 2,
            current_state := ''q1'', index := Some 1 \<rparr>)"
    by (rule next_scenario_B)
qed

text \<open>The theorem at two steps whose head is at index 1 and whose write changes the cell:
  \<open>scenario_C\<close> after its first step, where \<open>q1\<close> on the blank of cell 1 writes \<open>x\<close>, moves
  right and goes on; and a tape \<open>a b\<close> with a transition that writes \<open>y\<close> over \<open>b\<close>,
  moves left and accepts.\<close>

theorem next_applies_transition_witness:
  "next_tm (scenario_C\<lparr> tape := Some [''1'', BLANK], tape_length := Some 2,
            current_state := ''q1'', index := Some 1 \<rparr>) =
     Inr (None, scenario_C\<lparr> tape := Some [''1'', ''x'', BLANK], tape_length := Some 3,
            current_state := ''q0'', index := Some 2 \<rparr>) \<and>
   next_tm (scenario_A\<lparr> tape := Some [''a'', ''b''], tape_length := Some 2, index := Some 1,
            delta := [''q0'' \<mapsto> [''b'' \<mapsto> (''y'', ''q0'', LEFT)]] \<rparr>) =
     Inr (Some ACCEPT, scenario_A\<lparr> tape := Some [''a'', ''y''], tape_length := Some 2,
            index := Some 0, delta := [''q0'' \<mapsto> [''b'' \<mapsto> (''y'', ''q0'', LEFT)]] \<rparr>)"
proof -
  let ?c = "scenario_C\<lparr> tape := Some [''1'', BLANK], tape_length := Some 2,
            current_state := ''q1'', index := Some 1 \<rparr>"
  let ?a = "scenario_A\<lparr> tape := Some [''a'', ''b''], tape_length := Some 2, index := Some 1,
            delta := [''q0'' \<mapsto> [''b'' \<mapsto> (''y'', ''q0'', LEFT)]] \<rparr>"
  have hc: "tape ?c = Some [''1'', BLANK] \<and> index ?c = Some 1 \<and> tape_length ?c = Some 2 \<and>
      (0::int) \<le> 1 \<and> 1 < int (length [''1'', BLANK]) \<and>
      delta ?c (current_state ?c) = Some [BLANK \<mapsto> (''x'', ''q0'', RIGHT)] \<and>
      [BLANK \<mapsto> (''x'', ''q0'', RIGHT)] ([''1'', BLANK] ! nat 1) = Some (''x'', ''q0'', RIGHT)"
    by (simp add: scenario_C_def delta_C_def)
  have gc: "go_right (?c\<lparr> tape := Some ([''1'', BLANK][nat 1 := ''x'']), current_state := ''q0'' \<rparr>) =
      Inr (scenario_C\<lparr> tape := Some [''1'', ''x'', BLANK], tape_length := Some 3,
            current_state := ''q0'', index := Some 2 \<rparr>)"
    by (simp add: go_right_def)
  have nc: "''q0'' \<notin> accepting ?c"
    by (simp add: scenario_C_def)
  have ha: "tape ?a = Some [''a'', ''b''] \<and> index ?a = Some 1 \<and> tape_length ?a = Some 2 \<and>
      (0::int) \<le> 1 \<and> 1 < int (length [''a'', ''b'']) \<and>
      delta ?a (current_state ?a) = Some [''b'' \<mapsto> (''y'', ''q0'', LEFT)] \<and>
      [''b'' \<mapsto> (''y'', ''q0'', LEFT)] ([''a'', ''b''] ! nat 1) = Some (''y'', ''q0'', LEFT)"
    by (simp add: scenario_A_def)
  have ga: "go_left (?a\<lparr> tape := Some ([''a'', ''b''][nat 1 := ''y'']), current_state := ''q0'' \<rparr>) =
      Inr (scenario_A\<lparr> tape := Some [''a'', ''y''], tape_length := Some 2,
            index := Some 0, delta := [''q0'' \<mapsto> [''b'' \<mapsto> (''y'', ''q0'', LEFT)]] \<rparr>)"
    by (simp add: go_left_def scenario_A_def)
  have na: "''q0'' \<in> accepting ?a"
    by (simp add: scenario_A_def)
  from next_applies_transition
    [of ?c "[''1'', BLANK]" 1 2 "[BLANK \<mapsto> (''x'', ''q0'', RIGHT)]" "''x''" "''q0''" RIGHT] hc gc nc
  have c: "next_tm ?c = Inr (None, scenario_C\<lparr> tape := Some [''1'', ''x'', BLANK],
      tape_length := Some 3, current_state := ''q0'', index := Some 2 \<rparr>)"
    by (simp add: RIGHT_def)
  from next_applies_transition
    [of ?a "[''a'', ''b'']" 1 2 "[''b'' \<mapsto> (''y'', ''q0'', LEFT)]" "''y''" "''q0''" LEFT] ha ga na
  have a: "next_tm ?a = Inr (Some ACCEPT, scenario_A\<lparr> tape := Some [''a'', ''y''],
      tape_length := Some 2, index := Some 0,
      delta := [''q0'' \<mapsto> [''b'' \<mapsto> (''y'', ''q0'', LEFT)]] \<rparr>)"
    by (simp add: RIGHT_def LEFT_def)
  from c a show ?thesis by simp
qed

subsection \<open>Acceptance needs a transition\<close>

text \<open>
  Claim C9. Scenario A: the machine with the single state \<open>q0\<close>, initial and accepting,
  and an empty transition table is constructed, and on input \<open>1\<close> its first \<^verbatim>\<open>next\<close>
  returns \<open>REJECT\<close> and leaves the object as it was, although the current state \<open>q0\<close> is
  accepting. In general, whenever \<^verbatim>\<open>next\<close> returns \<open>ACCEPT\<close>, the table had a transition
  for the current state and the symbol read, into an accepting state, and that state is
  the current state afterwards.
\<close>

theorem accept_only_by_transition:
  "init {''q0''} ''q0'' Map.empty {''q0''} = Inr scenario_A \<and>
   current_state (input_tape (TapeStr ''1'') scenario_A)
     \<in> accepting (input_tape (TapeStr ''1'') scenario_A) \<and>
   next_tm (input_tape (TapeStr ''1'') scenario_A) =
     Inr (Some REJECT, input_tape (TapeStr ''1'') scenario_A) \<and>
   (next_tm m = Inr (Some ACCEPT, m') \<longrightarrow>
      (\<exists>symbol row new_symbol new_state direction.
         read m = Inr symbol \<and> delta m (current_state m) = Some row \<and>
         row symbol = Some (new_symbol, new_state, direction) \<and>
         new_state \<in> accepting m \<and> current_state m' = new_state))"
proof (intro conjI impI)
  show "init {''q0''} ''q0'' Map.empty {''q0''} = Inr scenario_A"
    by (simp add: init_def scenario_A_def)
  show "current_state (input_tape (TapeStr ''1'') scenario_A)
     \<in> accepting (input_tape (TapeStr ''1'') scenario_A)"
    by (simp add: input_tape_def scenario_A_def)
  show "next_tm (input_tape (TapeStr ''1'') scenario_A) =
     Inr (Some REJECT, input_tape (TapeStr ''1'') scenario_A)"
    by (simp add: next_tm_def read_input_str1) (simp add: input_tape_def scenario_A_def)
next
  assume a: "next_tm m = Inr (Some ACCEPT, m')"
  then obtain symbol where rd: "read m = Inr symbol"
    by (auto simp add: next_tm_def split: sum.splits)
  from a rd obtain row where rw: "delta m (current_state m) = Some row"
    by (auto simp add: next_tm_def ACCEPT_def REJECT_def split: option.splits)
  from a rd rw obtain new_symbol new_state direction
    where tr: "row symbol = Some (new_symbol, new_state, direction)"
    by (auto simp add: next_tm_def ACCEPT_def REJECT_def split: option.splits)
  from a rd rw tr obtain m1 where w: "write_tm new_symbol m = Inr m1"
    by (auto simp add: next_tm_def split: sum.splits)
  have w': "accepting m1 = accepting m"
    using w by (auto simp add: write_tm_def split: option.splits sum.splits)
  from a rd rw tr w obtain m2
    where mv: "(if direction = RIGHT then go_right (m1\<lparr> current_state := new_state \<rparr>)
               else go_left (m1\<lparr> current_state := new_state \<rparr>)) = Inr m2"
      and res: "m' = m2" "new_state \<in> accepting m2"
    by (auto simp add: next_tm_def split: sum.splits if_splits)
  have "accepting m2 = accepting m1 \<and> current_state m2 = new_state"
    using mv by (auto simp add: go_right_def go_left_def split: option.splits if_splits)
  with rd rw tr w' res
  show "\<exists>symbol row new_symbol new_state direction.
         read m = Inr symbol \<and> delta m (current_state m) = Some row \<and>
         row symbol = Some (new_symbol, new_state, direction) \<and>
         new_state \<in> accepting m \<and> current_state m' = new_state"
    by auto
qed

theorem accept_only_by_transition_witness:
  "\<exists>symbol row new_symbol new_state direction.
     read (input_tape (TapeStr ''1'') scenario_B) = Inr symbol \<and>
     delta (input_tape (TapeStr ''1'') scenario_B)
       (current_state (input_tape (TapeStr ''1'') scenario_B)) = Some row \<and>
     row symbol = Some (new_symbol, new_state, direction) \<and>
     new_state \<in> accepting (input_tape (TapeStr ''1'') scenario_B) \<and>
     current_state (scenario_B\<lparr> tape := Some [''1'', BLANK], tape_length := Some 2,
            current_state := ''q1'', index := Some 1 \<rparr>) = new_state"
  using accept_only_by_transition
    [of "input_tape (TapeStr ''1'') scenario_B"
        "scenario_B\<lparr> tape := Some [''1'', BLANK], tape_length := Some 2,
            current_state := ''q1'', index := Some 1 \<rparr>"]
    next_scenario_B
  by blast

subsection \<open>Moving the head\<close>

text \<open>
  Claim C4. Let the counter be the number of cells of the tape \<open>t\<close> and the head index
  \<open>i\<close> be on a cell. \<^verbatim>\<open>go_right\<close> with the head on the last cell appends one cell holding
  \<open>BLANK\<close>, adds one to the counter and to the head; elsewhere it only adds one to the
  head. \<^verbatim>\<open>go_left\<close> with the head at 0 puts one cell holding \<open>BLANK\<close> in front of the
  tape, adds one to the counter and leaves the head at 0, which is that new cell;
  elsewhere it only subtracts one from the head. Either call returns, and the tape it
  leaves has at most one cell more than before.
\<close>

theorem moves_grow_by_one:
  assumes "tape_ok m" and "tape m = Some t" and "index m = Some i"
  shows "(i = int (length t) - 1 \<longrightarrow>
            go_right m = Inr (m\<lparr> tape := Some (t @ [BLANK]),
              tape_length := Some (int (length t) + 1), index := Some (i + 1) \<rparr>)) \<and>
         (i \<noteq> int (length t) - 1 \<longrightarrow> go_right m = Inr (m\<lparr> index := Some (i + 1) \<rparr>)) \<and>
         (i = 0 \<longrightarrow>
            go_left m = Inr (m\<lparr> tape := Some (BLANK # t),
              tape_length := Some (int (length t) + 1) \<rparr>)) \<and>
         (i \<noteq> 0 \<longrightarrow> go_left m = Inr (m\<lparr> index := Some (i - 1) \<rparr>)) \<and>
         (\<exists>m' t'. apply_move mv m = Inr m' \<and> tape m' = Some t' \<and>
            length t \<le> length t' \<and> length t' \<le> length t + 1 \<and>
            tape_length m' = Some (int (length t')))"
proof -
  from assms have n: "tape_length m = Some (int (length t))"
    by (simp add: tape_ok_def length_ok_def)
  show ?thesis
    using assms(2,3) n by (cases mv) (auto simp add: go_right_def go_left_def)
qed

theorem moves_grow_by_one_witness:
  "go_right (input_tape (TapeStr ''1'') scenario_A) =
     Inr (scenario_A\<lparr> tape := Some [''1'', BLANK], tape_length := Some 2, index := Some 1 \<rparr>) \<and>
   go_left (input_tape (TapeStr ''1'') scenario_A) =
     Inr (scenario_A\<lparr> tape := Some [BLANK, ''1''], tape_length := Some 2, index := Some 0 \<rparr>) \<and>
   go_right (scenario_A\<lparr> tape := Some [''a'', ''b'', ''c''], tape_length := Some 3, index := Some 1 \<rparr>) =
     Inr (scenario_A\<lparr> tape := Some [''a'', ''b'', ''c''], tape_length := Some 3, index := Some 2 \<rparr>) \<and>
   go_left (scenario_A\<lparr> tape := Some [''a'', ''b'', ''c''], tape_length := Some 3, index := Some 1 \<rparr>) =
     Inr (scenario_A\<lparr> tape := Some [''a'', ''b'', ''c''], tape_length := Some 3, index := Some 0 \<rparr>)"
proof -
  have ok1: "tape_ok (input_tape (TapeStr ''1'') scenario_A)"
    by (simp add: tape_ok_def length_ok_def head_ok_def input_tape_def)
  have t1: "tape (input_tape (TapeStr ''1'') scenario_A) = Some [''1'']"
    by (simp add: input_tape_def)
  have i1: "index (input_tape (TapeStr ''1'') scenario_A) = Some 0"
    by (simp add: input_tape_def)
  have e1: "input_tape (TapeStr ''1'') scenario_A =
      scenario_A\<lparr> tape := Some [''1''], tape_length := Some 1, index := Some 0 \<rparr>"
    by (simp add: input_tape_def)
  have ok2: "tape_ok (scenario_A\<lparr> tape := Some [''a'', ''b'', ''c''], tape_length := Some 3,
      index := Some 1 \<rparr>)"
    by (simp add: tape_ok_def length_ok_def head_ok_def)
  have t2: "tape (scenario_A\<lparr> tape := Some [''a'', ''b'', ''c''], tape_length := Some 3,
      index := Some 1 \<rparr>) = Some [''a'', ''b'', ''c'']"
    by simp
  have i2: "index (scenario_A\<lparr> tape := Some [''a'', ''b'', ''c''], tape_length := Some 3,
      index := Some 1 \<rparr>) = Some 1"
    by simp
  from moves_grow_by_one [OF ok1 t1 i1, of MoveLeft] moves_grow_by_one [OF ok2 t2 i2, of MoveLeft] e1
  show ?thesis by simp
qed

subsection \<open>The head stays on the tape\<close>

lemma go_right_tape_ok:
  assumes "tape_ok m"
  shows "\<exists>m'. go_right m = Inr m' \<and> tape_ok m'"
  using assms
  by (auto simp add: tape_ok_def length_ok_def head_ok_def go_right_def split: option.splits)

lemma go_left_tape_ok:
  assumes "tape_ok m"
  shows "\<exists>m'. go_left m = Inr m' \<and> tape_ok m'"
  using assms
  by (auto simp add: tape_ok_def length_ok_def head_ok_def go_left_def split: option.splits)

lemma input_tape_ok: "tape_ok (input_tape inp m)"
  by (cases inp) (auto simp add: tape_ok_def length_ok_def head_ok_def input_tape_def Let_def)

lemma apply_move_tape_ok:
  assumes "tape_ok m"
  shows "\<exists>m'. apply_move mv m = Inr m' \<and> tape_ok m'"
  using assms by (cases mv) (simp_all add: go_left_tape_ok go_right_tape_ok)

lemma move_states_ok:
  "tape_ok m \<Longrightarrow>
     length (move_states mvs m) = length mvs \<and> list_all returned_ok (move_states mvs m)"
proof (induction mvs arbitrary: m)
  case Nil
  show ?case by simp
next
  case (Cons mv mvs)
  from apply_move_tape_ok [OF Cons.prems] obtain m'
    where s: "apply_move mv m = Inr m'" and ok: "tape_ok m'"
    by blast
  from Cons.IH [OF ok] s ok show ?case
    by (simp add: returned_ok_def)
qed

text \<open>
  Claim C3. Take the tape \<^verbatim>\<open>input_tape\<close> makes of any input, empty or not, on any
  object, and any finite sequence of \<^verbatim>\<open>go_left\<close> and \<^verbatim>\<open>go_right\<close> calls. Every call of the
  sequence returns (the list of results is as long as the sequence), and after each of
  them the head index is at least 0 and less than the counter \<^verbatim>\<open>_tape_length\<close>, which is
  the number of cells of the tape.
\<close>

theorem head_stays_on_tape:
  "length (move_states mvs (input_tape inp m)) = length mvs \<and>
   list_all returned_ok (move_states mvs (input_tape inp m))"
  by (rule move_states_ok) (rule input_tape_ok)

subsection \<open>The counter is the length of the tape\<close>

lemma length_ok_current_state:
  "length_ok (m\<lparr> current_state := q \<rparr>) = length_ok m"
  by (simp add: length_ok_def split: option.splits)

lemma tape_ok_current_state:
  "tape_ok (m\<lparr> current_state := q \<rparr>) = tape_ok m"
  by (simp add: tape_ok_def length_ok_def head_ok_def split: option.splits)

lemma write_tm_length_ok:
  assumes "length_ok m" and "write_tm s m = Inr m'"
  shows "length_ok m'"
  using assms
  by (auto simp add: length_ok_def write_tm_def py_setitem_def split: option.splits sum.splits)

lemma go_right_length_ok:
  assumes "length_ok m" and "go_right m = Inr m'"
  shows "length_ok m'"
  using assms
  by (auto simp add: length_ok_def go_right_def split: option.splits if_splits)

lemma go_left_length_ok:
  assumes "length_ok m" and "go_left m = Inr m'"
  shows "length_ok m'"
  using assms
  by (auto simp add: length_ok_def go_left_def split: option.splits if_splits)

lemma next_tm_cases:
  assumes "next_tm m = Inr (r, m')"
  shows "(r = Some REJECT \<and> m' = m) \<or>
         (\<exists>s m1 q. write_tm s m = Inr m1 \<and>
            (go_right (m1\<lparr> current_state := q \<rparr>) = Inr m' \<or>
             go_left (m1\<lparr> current_state := q \<rparr>) = Inr m'))"
  using assms
  by (auto simp add: next_tm_def split: sum.splits option.splits if_splits)

lemma next_tm_length_ok:
  assumes "length_ok m" and "next_tm m = Inr (r, m')"
  shows "length_ok m'"
proof -
  from next_tm_cases [OF assms(2)] show ?thesis
  proof
    assume "r = Some REJECT \<and> m' = m"
    with assms(1) show ?thesis by simp
  next
    assume "\<exists>s m1 q. write_tm s m = Inr m1 \<and>
            (go_right (m1\<lparr> current_state := q \<rparr>) = Inr m' \<or>
             go_left (m1\<lparr> current_state := q \<rparr>) = Inr m')"
    then obtain s m1 q where w: "write_tm s m = Inr m1"
      and mv: "go_right (m1\<lparr> current_state := q \<rparr>) = Inr m' \<or>
               go_left (m1\<lparr> current_state := q \<rparr>) = Inr m'"
      by blast
    from write_tm_length_ok [OF assms(1) w] have "length_ok (m1\<lparr> current_state := q \<rparr>)"
      by (simp add: length_ok_current_state)
    with mv show ?thesis
      by (auto intro: go_right_length_ok go_left_length_ok)
  qed
qed

lemma tape_ok_access:
  assumes "tape_ok m"
  shows "\<exists>t i. tape m = Some t \<and> index m = Some i \<and> 0 \<le> i \<and> i < int (length t) \<and>
           read m = Inr (t ! nat i) \<and>
           write_tm s m = Inr (m\<lparr> tape := Some (t[nat i := s]) \<rparr>)"
  using assms
  by (auto simp add: tape_ok_def length_ok_def head_ok_def read_def write_tm_def
      py_getitem_def py_setitem_def py_index_def split: option.splits)

lemma write_tm_tape_ok:
  assumes "tape_ok m"
  shows "\<exists>m'. write_tm s m = Inr m' \<and> tape_ok m'"
proof -
  from tape_ok_access [OF assms, of s] obtain t i
    where "tape m = Some t" and "index m = Some i"
      and "write_tm s m = Inr (m\<lparr> tape := Some (t[nat i := s]) \<rparr>)"
    by blast
  with assms show ?thesis
    by (simp add: tape_ok_def length_ok_def head_ok_def split: option.splits)
qed

lemma next_tm_tape_ok:
  assumes "tape_ok m"
  shows "\<exists>r m'. next_tm m = Inr (r, m') \<and> tape_ok m'"
proof -
  from tape_ok_access [OF assms] obtain sym where rd: "read m = Inr sym"
    by blast
  show ?thesis
  proof (cases "delta m (current_state m)")
    case None
    with rd assms show ?thesis by (simp add: next_tm_def)
  next
    case (Some row)
    show ?thesis
    proof (cases "row sym")
      case None
      with rd Some assms show ?thesis by (simp add: next_tm_def)
    next
      case (Some act)
      obtain ns q d where act: "act = (ns, q, d)"
        by (cases act)
      from write_tm_tape_ok [OF assms, of ns] obtain m1
        where w: "write_tm ns m = Inr m1" and ok1: "tape_ok m1"
        by blast
      from ok1 have ok1': "tape_ok (m1\<lparr> current_state := q \<rparr>)"
        by (simp add: tape_ok_current_state)
      from go_right_tape_ok [OF ok1'] go_left_tape_ok [OF ok1']
      obtain m2 where "(if d = RIGHT then go_right (m1\<lparr> current_state := q \<rparr>)
               else go_left (m1\<lparr> current_state := q \<rparr>)) = Inr m2" and "tape_ok m2"
        by (cases "d = RIGHT") auto
      with rd \<open>delta m (current_state m) = Some row\<close> Some act w show ?thesis
        by (simp add: next_tm_def)
    qed
  qed
qed

lemma reachable_tape_ok:
  "reachable m \<Longrightarrow> tape_ok m"
proof (induction rule: reachable.induct)
  case (r_input inp m)
  show ?case by (rule input_tape_ok)
next
  case (r_right m m')
  with go_right_tape_ok [of m] show ?case by auto
next
  case (r_left m m')
  with go_left_tape_ok [of m] show ?case by auto
next
  case (r_write m s m')
  with write_tm_tape_ok [of m s] show ?case by auto
next
  case (r_next m r m')
  with next_tm_tape_ok [of m] show ?case by auto
qed

text \<open>
  Claim C10. \<^verbatim>\<open>input_tape\<close> leaves the counter \<^verbatim>\<open>_tape_length\<close> equal to the number of
  cells of \<^verbatim>\<open>_tape\<close>, and each of \<^verbatim>\<open>go_right\<close>, \<^verbatim>\<open>go_left\<close>, \<^verbatim>\<open>write\<close> and \<^verbatim>\<open>next\<close> that
  returns keeps them equal. So on every object reached from an initialised tape by these
  operations the counter is the length of the tape, the head index \<open>i\<close> is at least 0 and
  less than that length, \<^verbatim>\<open>read\<close> returns cell \<open>i\<close> and \<^verbatim>\<open>write\<close> replaces cell \<open>i\<close>: neither
  raises \<^verbatim>\<open>IndexError\<close>. On such an object \<^verbatim>\<open>go_right\<close>, \<^verbatim>\<open>go_left\<close> and \<^verbatim>\<open>next\<close> return as
  well.
\<close>

theorem counter_is_length:
  "length_ok (input_tape inp m0) \<and>
   (length_ok m \<and> go_right m = Inr m' \<longrightarrow> length_ok m') \<and>
   (length_ok m \<and> go_left m = Inr m' \<longrightarrow> length_ok m') \<and>
   (length_ok m \<and> write_tm s m = Inr m' \<longrightarrow> length_ok m') \<and>
   (length_ok m \<and> next_tm m = Inr (r, m') \<longrightarrow> length_ok m') \<and>
   (reachable m \<longrightarrow>
      (\<exists>t i. tape m = Some t \<and> tape_length m = Some (int (length t)) \<and>
         index m = Some i \<and> 0 \<le> i \<and> i < int (length t) \<and>
         read m = Inr (t ! nat i) \<and>
         write_tm s m = Inr (m\<lparr> tape := Some (t[nat i := s]) \<rparr>)) \<and>
      (\<exists>m1. go_right m = Inr m1) \<and> (\<exists>m1. go_left m = Inr m1) \<and>
      (\<exists>r1 m1. next_tm m = Inr (r1, m1)))"
proof (intro conjI impI)
  show "length_ok (input_tape inp m0)"
    using input_tape_ok [of inp m0] by (simp add: tape_ok_def)
  show "length_ok m \<and> go_right m = Inr m' \<Longrightarrow> length_ok m'"
    by (blast intro: go_right_length_ok)
  show "length_ok m \<and> go_left m = Inr m' \<Longrightarrow> length_ok m'"
    by (blast intro: go_left_length_ok)
  show "length_ok m \<and> write_tm s m = Inr m' \<Longrightarrow> length_ok m'"
    by (blast intro: write_tm_length_ok)
  show "length_ok m \<and> next_tm m = Inr (r, m') \<Longrightarrow> length_ok m'"
    by (blast intro: next_tm_length_ok)
next
  assume "reachable m"
  then have ok: "tape_ok m"
    by (rule reachable_tape_ok)
  from tape_ok_access [OF ok, of s] obtain t i
    where f: "tape m = Some t" "index m = Some i" "0 \<le> i" "i < int (length t)"
      "read m = Inr (t ! nat i)" "write_tm s m = Inr (m\<lparr> tape := Some (t[nat i := s]) \<rparr>)"
    by blast
  from ok f(1) have "tape_length m = Some (int (length t))"
    by (simp add: tape_ok_def length_ok_def)
  with f show "\<exists>t i. tape m = Some t \<and> tape_length m = Some (int (length t)) \<and>
         index m = Some i \<and> 0 \<le> i \<and> i < int (length t) \<and>
         read m = Inr (t ! nat i) \<and>
         write_tm s m = Inr (m\<lparr> tape := Some (t[nat i := s]) \<rparr>)"
    by blast
  from go_right_tape_ok [OF ok] show "\<exists>m1. go_right m = Inr m1"
    by blast
  from go_left_tape_ok [OF ok] show "\<exists>m1. go_left m = Inr m1"
    by blast
  from next_tm_tape_ok [OF ok] show "\<exists>r1 m1. next_tm m = Inr (r1, m1)"
    by blast
qed

theorem counter_is_length_witness:
  "length_ok (scenario_B\<lparr> tape := Some [''1'', BLANK], tape_length := Some 2,
      current_state := ''q1'', index := Some 1 \<rparr>) \<and>
   length_ok (scenario_B\<lparr> tape := Some [BLANK, ''1''], tape_length := Some 2, index := Some 0 \<rparr>) \<and>
   (\<exists>t i. tape (scenario_B\<lparr> tape := Some [''1'', BLANK], tape_length := Some 2,
              current_state := ''q1'', index := Some 1 \<rparr>) = Some t \<and>
      tape_length (scenario_B\<lparr> tape := Some [''1'', BLANK], tape_length := Some 2,
              current_state := ''q1'', index := Some 1 \<rparr>) = Some (int (length t)) \<and>
      index (scenario_B\<lparr> tape := Some [''1'', BLANK], tape_length := Some 2,
              current_state := ''q1'', index := Some 1 \<rparr>) = Some i \<and> 0 \<le> i \<and> i < int (length t) \<and>
      read (scenario_B\<lparr> tape := Some [''1'', BLANK], tape_length := Some 2,
              current_state := ''q1'', index := Some 1 \<rparr>) = Inr (t ! nat i) \<and>
      write_tm ''x'' (scenario_B\<lparr> tape := Some [''1'', BLANK], tape_length := Some 2,
              current_state := ''q1'', index := Some 1 \<rparr>) =
        Inr (scenario_B\<lparr> tape := Some [''1'', BLANK], tape_length := Some 2,
              current_state := ''q1'', index := Some 1 \<rparr>\<lparr> tape := Some (t[nat i := ''x'']) \<rparr>))"
proof -
  let ?m0 = "input_tape (TapeStr ''1'') scenario_B"
  let ?m1 = "scenario_B\<lparr> tape := Some [''1'', BLANK], tape_length := Some 2,
      current_state := ''q1'', index := Some 1 \<rparr>"
  let ?m2 = "scenario_B\<lparr> tape := Some [BLANK, ''1''], tape_length := Some 2, index := Some 0 \<rparr>"
  have l0: "length_ok ?m0"
    using counter_is_length [of "TapeStr ''1''" scenario_B] by simp
  have n: "next_tm ?m0 = Inr (Some ACCEPT, ?m1)"
    by (rule next_scenario_B)
  have g: "go_left ?m0 = Inr ?m2"
    by (simp add: go_left_def input_tape_def)
  have r: "reachable ?m1"
    using r_next [OF r_input n] .
  from counter_is_length [of _ _ ?m0 ?m1 _ "Some ACCEPT"] l0 n
  have a: "length_ok ?m1" by blast
  from counter_is_length [of _ _ ?m0 ?m2] l0 g
  have b: "length_ok ?m2" by blast
  from counter_is_length [of _ _ ?m1 _ "''x''"] r
  have c: "\<exists>t i. tape ?m1 = Some t \<and> tape_length ?m1 = Some (int (length t)) \<and>
      index ?m1 = Some i \<and> 0 \<le> i \<and> i < int (length t) \<and> read ?m1 = Inr (t ! nat i) \<and>
      write_tm ''x'' ?m1 = Inr (?m1\<lparr> tape := Some (t[nat i := ''x'']) \<rparr>)"
    by blast
  from a b c show ?thesis by blast
qed

subsection \<open>Calling next after a terminal outcome\<close>

lemma next_scenario_C_1:
  "next_tm (input_tape (TapeStr ''1'') scenario_C) =
     Inr (Some ACCEPT, scenario_C\<lparr> tape := Some [''1'', BLANK], tape_length := Some 2,
            current_state := ''q1'', index := Some 1 \<rparr>)"
  by (simp add: next_tm_def read_def write_tm_def go_right_def input_tape_def
      py_getitem_def py_setitem_def py_index_def scenario_C_def delta_C_def RIGHT_def BLANK_def)

lemma next_scenario_C_2:
  "next_tm (scenario_C\<lparr> tape := Some [''1'', BLANK], tape_length := Some 2,
            current_state := ''q1'', index := Some 1 \<rparr>) =
     Inr (None, scenario_C\<lparr> tape := Some [''1'', ''x'', BLANK], tape_length := Some 3,
            current_state := ''q0'', index := Some 2 \<rparr>)"
  by (simp add: next_tm_def read_def write_tm_def go_right_def
      py_getitem_def py_setitem_def py_index_def scenario_C_def delta_C_def RIGHT_def BLANK_def)

lemma next_tm_reject_same:
  assumes "next_tm m = Inr (Some REJECT, m')"
  shows "m' = m"
  using assms
  by (auto simp add: next_tm_def ACCEPT_def REJECT_def split: sum.splits option.splits if_splits)

lemma run_next_reject:
  assumes "next_tm m = Inr (Some REJECT, m)"
  shows "run_next n m = replicate n (Inr (Some REJECT, m)) \<and> after_next n m = Inr m"
  using assms by (induction n) simp_all

text \<open>
  The class keeps no record of a terminal outcome and \<^verbatim>\<open>next\<close> has no check for one; it
  is the caller that stops. After \<open>ACCEPT\<close> a further \<^verbatim>\<open>next\<close> is an ordinary step. The
  machine \<open>scenario_C\<close> on input \<open>1\<close> shows it: the first call returns \<open>ACCEPT\<close> in state
  \<open>q1\<close>, and the second call writes \<open>x\<close>, grows the tape, moves the head to index 2, goes
  to state \<open>q0\<close> and returns \<open>None\<close> (Continue).
\<close>

theorem step_after_accept_counterexample:
  "init {''q0'', ''q1''} ''q0'' delta_C {''q1''} = Inr scenario_C \<and>
   run_next 2 (input_tape (TapeStr ''1'') scenario_C) =
     [Inr (Some ACCEPT, scenario_C\<lparr> tape := Some [''1'', BLANK], tape_length := Some 2,
             current_state := ''q1'', index := Some 1 \<rparr>),
      Inr (None, scenario_C\<lparr> tape := Some [''1'', ''x'', BLANK], tape_length := Some 3,
             current_state := ''q0'', index := Some 2 \<rparr>)]"
proof -
  have "init {''q0'', ''q1''} ''q0'' delta_C {''q1''} = Inr scenario_C"
    by (simp add: init_def scenario_C_def)
  moreover have "run_next (Suc (Suc 0)) (input_tape (TapeStr ''1'') scenario_C) =
     [Inr (Some ACCEPT, scenario_C\<lparr> tape := Some [''1'', BLANK], tape_length := Some 2,
             current_state := ''q1'', index := Some 1 \<rparr>),
      Inr (None, scenario_C\<lparr> tape := Some [''1'', ''x'', BLANK], tape_length := Some 3,
             current_state := ''q0'', index := Some 2 \<rparr>)]"
    by (simp add: next_scenario_C_1 next_scenario_C_2)
  ultimately show ?thesis
    by (simp add: numeral_2_eq_2)
qed

text \<open>
  Claim C5, for the outcome \<open>REJECT\<close>. Once \<^verbatim>\<open>next\<close> has returned \<open>REJECT\<close>, the object is the
  one it was called on, and any number \<open>n\<close> of further calls each return \<open>REJECT\<close> again
  and leave tape, counter, head and current state as they were.
\<close>

theorem reject_is_terminal:
  assumes "next_tm m = Inr (Some REJECT, m')"
  shows "m' = m \<and> run_next n m' = replicate n (Inr (Some REJECT, m)) \<and> after_next n m' = Inr m"
proof -
  from next_tm_reject_same [OF assms] have e: "m' = m" .
  with assms have "next_tm m = Inr (Some REJECT, m)" by simp
  from run_next_reject [OF this, of n] e show ?thesis by simp
qed

theorem reject_is_terminal_witness:
  "run_next 3 (input_tape (TapeStr ''1'') scenario_A) =
     [Inr (Some REJECT, input_tape (TapeStr ''1'') scenario_A),
      Inr (Some REJECT, input_tape (TapeStr ''1'') scenario_A),
      Inr (Some REJECT, input_tape (TapeStr ''1'') scenario_A)] \<and>
   after_next 3 (input_tape (TapeStr ''1'') scenario_A) = Inr (input_tape (TapeStr ''1'') scenario_A)"
proof -
  have n: "next_tm (input_tape (TapeStr ''1'') scenario_A) =
      Inr (Some REJECT, input_tape (TapeStr ''1'') scenario_A)"
    by (simp add: next_tm_def read_input_str1) (simp add: input_tape_def scenario_A_def)
  from reject_is_terminal [OF n, of 3] show ?thesis
    by (simp add: numeral_3_eq_3)
qed

subsection \<open>A second run on the same object\<close>

lemma write_tm_keeps_definition:
  assumes "write_tm s m = Inr m'"
  shows "states m' = states m \<and> accepting m' = accepting m \<and> delta m' = delta m \<and>
         current_state m' = current_state m"
  using assms
  by (auto simp add: write_tm_def split: option.splits sum.splits)

lemma go_right_keeps_definition:
  assumes "go_right m = Inr m'"
  shows "states m' = states m \<and> accepting m' = accepting m \<and> delta m' = delta m \<and>
         current_state m' = current_state m"
  using assms
  by (auto simp add: go_right_def split: option.splits if_splits)

lemma go_left_keeps_definition:
  assumes "go_left m = Inr m'"
  shows "states m' = states m \<and> accepting m' = accepting m \<and> delta m' = delta m \<and>
         current_state m' = current_state m"
  using assms
  by (auto simp add: go_left_def split: option.splits if_splits)

lemma next_tm_keeps_definition:
  assumes "next_tm m = Inr (r, m')"
  shows "states m' = states m \<and> accepting m' = accepting m \<and> delta m' = delta m"
proof -
  from next_tm_cases [OF assms] show ?thesis
  proof
    assume "r = Some REJECT \<and> m' = m"
    then show ?thesis by simp
  next
    assume "\<exists>s m1 q. write_tm s m = Inr m1 \<and>
            (go_right (m1\<lparr> current_state := q \<rparr>) = Inr m' \<or>
             go_left (m1\<lparr> current_state := q \<rparr>) = Inr m')"
    then obtain s m1 q where w: "write_tm s m = Inr m1"
      and mv: "go_right (m1\<lparr> current_state := q \<rparr>) = Inr m' \<or>
               go_left (m1\<lparr> current_state := q \<rparr>) = Inr m'"
      by blast
    from mv have "states m' = states m1 \<and> accepting m' = accepting m1 \<and> delta m' = delta m1"
      using go_right_keeps_definition [of "m1\<lparr> current_state := q \<rparr>" m']
        go_left_keeps_definition [of "m1\<lparr> current_state := q \<rparr>" m']
      by auto
    with write_tm_keeps_definition [OF w] show ?thesis by simp
  qed
qed

lemma after_next_keeps_definition:
  "after_next k m = Inr m' \<Longrightarrow>
     states m' = states m \<and> accepting m' = accepting m \<and> delta m' = delta m"
proof (induction k arbitrary: m)
  case 0
  then show ?case by simp
next
  case (Suc k)
  from Suc.prems obtain r m1 where n: "next_tm m = Inr (r, m1)" and a: "after_next k m1 = Inr m'"
    by (auto split: sum.splits)
  from Suc.IH [OF a] next_tm_keeps_definition [OF n] show ?case by simp
qed

lemma after_next_returns:
  "tape_ok m \<Longrightarrow> \<exists>m'. after_next k m = Inr m' \<and> tape_ok m'"
proof (induction k arbitrary: m)
  case 0
  then show ?case by simp
next
  case (Suc k)
  from next_tm_tape_ok [OF Suc.prems] obtain r m1
    where n: "next_tm m = Inr (r, m1)" and ok: "tape_ok m1"
    by blast
  from Suc.IH [OF ok] n show ?case by simp
qed

lemma input_tape_same:
  assumes "states m1 = states m0" and "accepting m1 = accepting m0" and "delta m1 = delta m0"
    and "current_state m1 = current_state m0"
  shows "input_tape b m1 = input_tape b m0"
  using assms by (simp add: input_tape_def Let_def)

text \<open>
  \<^verbatim>\<open>input_tape\<close> sets the tape, the counter and the head and leaves \<^verbatim>\<open>_current_state\<close> as
  the earlier run left it; the object does not keep the initial state. The machine of
  Scenario B shows that a second run can differ from a run on a new object: after one
  step on input \<open>1\<close> the current state is \<open>q1\<close>, and after \<^verbatim>\<open>input_tape\<close> with \<open>1\<close> again the
  first \<^verbatim>\<open>next\<close> returns \<open>REJECT\<close>, where on the new object it returns \<open>ACCEPT\<close>.
\<close>

theorem second_run_counterexample:
  "init {''q0'', ''q1''} ''q0'' delta_B {''q1''} = Inr scenario_B \<and>
   after_next 1 (input_tape (TapeStr ''1'') scenario_B) =
     Inr (scenario_B\<lparr> tape := Some [''1'', BLANK], tape_length := Some 2,
            current_state := ''q1'', index := Some 1 \<rparr>) \<and>
   run_next 1 (input_tape (TapeStr ''1'')
       (scenario_B\<lparr> tape := Some [''1'', BLANK], tape_length := Some 2,
            current_state := ''q1'', index := Some 1 \<rparr>)) =
     [Inr (Some REJECT, scenario_B\<lparr> tape := Some [''1''], tape_length := Some 1,
            current_state := ''q1'', index := Some 0 \<rparr>)] \<and>
   run_next 1 (input_tape (TapeStr ''1'') scenario_B) =
     [Inr (Some ACCEPT, scenario_B\<lparr> tape := Some [''1'', BLANK], tape_length := Some 2,
            current_state := ''q1'', index := Some 1 \<rparr>)] \<and>
   run_next 1 (input_tape (TapeStr ''1'')
       (scenario_B\<lparr> tape := Some [''1'', BLANK], tape_length := Some 2,
            current_state := ''q1'', index := Some 1 \<rparr>)) \<noteq>
     run_next 1 (input_tape (TapeStr ''1'') scenario_B)"
proof -
  have i: "init {''q0'', ''q1''} ''q0'' delta_B {''q1''} = Inr scenario_B"
    by (simp add: init_def scenario_B_def)
  have r: "next_tm (input_tape (TapeStr ''1'')
       (scenario_B\<lparr> tape := Some [''1'', BLANK], tape_length := Some 2,
            current_state := ''q1'', index := Some 1 \<rparr>)) =
     Inr (Some REJECT, scenario_B\<lparr> tape := Some [''1''], tape_length := Some 1,
            current_state := ''q1'', index := Some 0 \<rparr>)"
    by (simp add: next_tm_def read_input_str1) (simp add: input_tape_def scenario_B_def delta_B_def)
  from i r next_scenario_B show ?thesis
    by (simp add: ACCEPT_def REJECT_def)
qed

text \<open>
  Claim C6, for an earlier run that ends in the initial state. Let the constructor
  return the object \<open>m0\<close> for the initial state \<open>q\<close>. An earlier run on any input \<open>a\<close> of
  any number \<open>k\<close> of \<^verbatim>\<open>next\<close> calls returns and leaves an object \<open>m1\<close>. When the current
  state of \<open>m1\<close> is \<open>q\<close>, \<^verbatim>\<open>input_tape\<close> with \<open>b\<close> on \<open>m1\<close> gives the very object it gives on
  the new \<open>m0\<close>, so any number \<open>n\<close> of \<^verbatim>\<open>next\<close> calls yields the same outcomes, states, head
  positions and tape contents on both.
\<close>

theorem second_run_from_initial_state:
  assumes "init sts q dl acc = Inr m0"
  shows "\<exists>m1. after_next k (input_tape a m0) = Inr m1 \<and>
           (current_state m1 = q \<longrightarrow>
              input_tape b m1 = input_tape b m0 \<and>
              run_next n (input_tape b m1) = run_next n (input_tape b m0))"
proof -
  from assms have q: "current_state m0 = q"
    by (auto simp add: init_def split: if_splits)
  from after_next_returns [OF input_tape_ok, of k a m0] obtain m1
    where r: "after_next k (input_tape a m0) = Inr m1"
    by blast
  from after_next_keeps_definition [OF r]
  have d: "states m1 = states m0 \<and> accepting m1 = accepting m0 \<and> delta m1 = delta m0"
    by (simp add: input_tape_def Let_def)
  have "input_tape b m1 = input_tape b m0" if "current_state m1 = q"
    using d q that by (intro input_tape_same) simp_all
  with r show ?thesis by simp
qed

theorem second_run_from_initial_state_witness:
  "run_next 1 (input_tape (TapeStr ''1'')
       (scenario_C\<lparr> tape := Some [''1'', ''x'', BLANK], tape_length := Some 3,
            current_state := ''q0'', index := Some 2 \<rparr>)) =
     [Inr (Some ACCEPT, scenario_C\<lparr> tape := Some [''1'', BLANK], tape_length := Some 2,
            current_state := ''q1'', index := Some 1 \<rparr>)]"
proof -
  have i: "init {''q0'', ''q1''} ''q0'' delta_C {''q1''} = Inr scenario_C"
    by (simp add: init_def scenario_C_def)
  have a: "after_next (Suc (Suc 0)) (input_tape (TapeStr ''1'') scenario_C) =
      Inr (scenario_C\<lparr> tape := Some [''1'', ''x'', BLANK], tape_length := Some 3,
            current_state := ''q0'', index := Some 2 \<rparr>)"
    by (simp add: next_scenario_C_1 next_scenario_C_2)
  have f: "run_next (Suc 0) (input_tape (TapeStr ''1'') scenario_C) =
      [Inr (Some ACCEPT, scenario_C\<lparr> tape := Some [''1'', BLANK], tape_length := Some 2,
            current_state := ''q1'', index := Some 1 \<rparr>)]"
    by (simp add: next_scenario_C_1)
  from second_run_from_initial_state
    [OF i, of "Suc (Suc 0)" "TapeStr ''1''" "TapeStr ''1''" "Suc 0"] a f
  show ?thesis by simp
qed

end
